theory Spec2Isabelle
  imports Complex_Main
begin

section \<open>Numeric values of the distance matrix\<close>

text \<open>
  The engine keeps every matrix in a numpy array of 64-bit floats. The model keeps the
  special values of that type apart (both infinities and not-a-number) and idealises the
  finite ones as exact rationals: rounding is not modelled, the behaviour of the
  infinities and of NaN is.
\<close>

datatype fval = Fin rat | PInf | NInf | NaN

datatype error = ValueError | IndexError | TypeError | OverflowError | AttributeError | LookupFailure

fun fneg :: "fval \<Rightarrow> fval" where
  "fneg (Fin a) = Fin (- a)"
| "fneg PInf = NInf"
| "fneg NInf = PInf"
| "fneg NaN = NaN"

fun fadd :: "fval \<Rightarrow> fval \<Rightarrow> fval" where
  "fadd (Fin a) (Fin b) = Fin (a + b)"
| "fadd (Fin a) PInf = PInf"
| "fadd (Fin a) NInf = NInf"
| "fadd PInf (Fin b) = PInf"
| "fadd PInf PInf = PInf"
| "fadd PInf NInf = NaN"
| "fadd NInf (Fin b) = NInf"
| "fadd NInf NInf = NInf"
| "fadd NInf PInf = NaN"
| "fadd NaN y = NaN"
| "fadd x NaN = NaN"

definition fsub :: "fval \<Rightarrow> fval \<Rightarrow> fval" where
  "fsub x y = fadd x (fneg y)"

text \<open>Comparisons: every comparison with NaN is false.\<close>

fun flt :: "fval \<Rightarrow> fval \<Rightarrow> bool" where
  "flt (Fin a) (Fin b) = (a < b)"
| "flt (Fin a) PInf = True"
| "flt NInf (Fin b) = True"
| "flt NInf PInf = True"
| "flt x y = False"

fun feq :: "fval \<Rightarrow> fval \<Rightarrow> bool" where
  "feq NaN y = False"
| "feq x NaN = False"
| "feq x y = (x = y)"

definition fle :: "fval \<Rightarrow> fval \<Rightarrow> bool" where
  "fle x y = (flt x y \<or> feq x y)"

definition fgt :: "fval \<Rightarrow> fval \<Rightarrow> bool" where
  "fgt x y = flt y x"

definition fge :: "fval \<Rightarrow> fval \<Rightarrow> bool" where
  "fge x y = fle y x"

text \<open>
  \<open>arr.min(axis=...)\<close> of numpy reduces with \<open>np.minimum\<close>, which returns NaN as soon
  as one argument is NaN. The builtin \<open>min\<close> of Python keeps its first argument and
  replaces it only by an element that compares smaller.
\<close>

definition np_minimum :: "fval \<Rightarrow> fval \<Rightarrow> fval" where
  "np_minimum a b = (if a = NaN \<or> b = NaN then NaN else if flt b a then b else a)"

fun np_min :: "fval list \<Rightarrow> fval" where
  "np_min [] = PInf"
| "np_min (x # xs) = foldl np_minimum x xs"

fun py_min :: "fval list \<Rightarrow> error + fval" where
  "py_min [] = Inl ValueError"
| "py_min (x # xs) = Inr (foldl (\<lambda>m y. if flt y m then y else m) x xs)"

definition py_sum :: "fval list \<Rightarrow> fval" where
  "py_sum xs = foldl fadd (Fin 0) xs"

section \<open>Matrices\<close>

text \<open>
  A matrix is the list of its rows. Row 0 and column 0 carry the node ids, the other
  cells are the data region \<open>matrix[1:, 1:]\<close>. numpy arrays are rectangular, and every
  array the engine builds is square.
\<close>

type_synonym matrix = "fval list list"

definition square :: "matrix \<Rightarrow> bool" where
  "square m = (\<forall>r \<in> set m. length r = length m)"

definition cell :: "matrix \<Rightarrow> nat \<Rightarrow> nat \<Rightarrow> error + fval" where
  "cell m i j = (if i < length m \<and> j < length (m ! i) then Inr (m ! i ! j) else Inl IndexError)"

definition set_cell :: "matrix \<Rightarrow> nat \<Rightarrow> nat \<Rightarrow> fval \<Rightarrow> matrix" where
  "set_cell m i j v = m[i := (m ! i)[j := v]]"

definition ebind :: "error + 'a \<Rightarrow> ('a \<Rightarrow> error + 'b) \<Rightarrow> error + 'b" where
  "ebind x f = (case x of Inl e \<Rightarrow> Inl e | Inr a \<Rightarrow> f a)"

fun fold_err :: "('a \<Rightarrow> 's \<Rightarrow> error + 's) \<Rightarrow> 'a list \<Rightarrow> 's \<Rightarrow> error + 's" where
  "fold_err f [] s = Inr s"
| "fold_err f (x # xs) s = (case f x s of Inl e \<Rightarrow> Inl e | Inr s' \<Rightarrow> fold_err f xs s')"

subsection \<open>Little's reduction (the body of \<open>bound\<close>)\<close>

text \<open>
  \<open>row_minimums = matrix[1:, 1:].min(axis=1)\<close>, subtracted row by row; then
  \<open>column_minimums = matrix[1:, 1:].min(axis=0)\<close> of the row-reduced matrix, subtracted
  column by column; the contribution is \<open>float(sum(row_minimums) + sum(column_minimums))\<close>.
\<close>

definition row_minimums :: "matrix \<Rightarrow> fval list" where
  "row_minimums m = map (\<lambda>r. np_min (tl r)) (tl m)"

definition sub_rows :: "matrix \<Rightarrow> matrix" where
  "sub_rows m = hd m # map (\<lambda>r. hd r # map (\<lambda>x. fsub x (np_min (tl r))) (tl r)) (tl m)"

definition column_minimums :: "matrix \<Rightarrow> fval list" where
  "column_minimums m = map (\<lambda>j. np_min (map (\<lambda>r. r ! j) (tl m))) [1..<length (hd m)]"

definition sub_columns :: "matrix \<Rightarrow> matrix" where
  "sub_columns m =
     hd m # map (\<lambda>r. hd r # map (\<lambda>j. fsub (r ! j) (np_min (map (\<lambda>r'. r' ! j) (tl m)))) [1..<length r]) (tl m)"

definition reduce_matrix :: "matrix \<Rightarrow> matrix \<times> fval" where
  "reduce_matrix m =
     (let m1 = sub_rows m
      in (sub_columns m1, fadd (py_sum (row_minimums m)) (py_sum (column_minimums m1))))"

text \<open>A reduction over an axis of length 0 raises ValueError in numpy.\<close>

definition bound_matrix :: "matrix \<Rightarrow> error + matrix \<times> fval" where
  "bound_matrix m =
     (if length m \<le> 1 \<or> length (hd m) \<le> 1 then Inl ValueError else Inr (reduce_matrix m))"

section \<open>Partial solutions\<close>

text \<open>
  An edge is a pair of node ids read from the label row and column, which are floats of
  the matrix; \<open>select_edge\<close> starts from the pair \<open>(None, None)\<close>, so an id is
  optional. \<open>==\<close> between two ids is the comparison of floats (false on NaN), false
  between a float and None, true between None and None.
\<close>

type_synonym label = "fval option"
type_synonym edge = "label \<times> label"

fun lab_eq :: "label \<Rightarrow> label \<Rightarrow> bool" where
  "lab_eq None None = True"
| "lab_eq (Some a) (Some b) = feq a b"
| "lab_eq x y = False"

definition edge_eq :: "edge \<Rightarrow> edge \<Rightarrow> bool" where
  "edge_eq e f = (lab_eq (fst e) (fst f) \<and> lab_eq (snd e) (snd f))"

definition edge_in :: "edge \<Rightarrow> edge list \<Rightarrow> bool" where
  "edge_in e es = list_ex (edge_eq e) es"

definition lab_in :: "label \<Rightarrow> label list \<Rightarrow> bool" where
  "lab_in x xs = list_ex (lab_eq x) xs"

text \<open>
  \<open>is_feasible\<close> holds True or False, and after \<open>init_from_partial\<close> the parent's
  \<open>edges\<close> dictionary (line 130 of the source assigns \<open>partial.edges\<close> to it). The
  dictionary \<open>{True: [...], False: [...]}\<close> is the pair of its two lists.
\<close>

datatype feas = FBool bool | FEdges "edge list \<times> edge list"

fun truthy :: "feas \<Rightarrow> bool" where
  "truthy (FBool b) = b"
| "truthy (FEdges d) = True"

text \<open>
  \<open>lookup\<close> stands for the expression \<open>self.lookup_matrix[a, b]\<close>: the array of the
  instance together with numpy's treatment of a float index, which changed between numpy
  versions. \<open>network\<close> gives the demand of \<open>get_node(id)\<close>, where the node exists.
\<close>

record partial_solution =
  lookup :: "fval \<Rightarrow> fval \<Rightarrow> error + fval"
  network :: "int \<Rightarrow> rat option"
  routes :: "edge list list option"
  distance_matrix :: matrix
  lower_bound :: fval
  edges :: "edge list \<times> edge list"
  is_feasible :: feas
  solved :: bool
  capacity :: rat

definition init_from_partial :: "partial_solution \<Rightarrow> partial_solution" where
  "init_from_partial partial =
     \<lparr> lookup = lookup partial,
       network = network partial,
       routes = None,
       distance_matrix = distance_matrix partial,
       lower_bound = lower_bound partial,
       edges = edges partial,
       is_feasible = FEdges (edges partial),
       solved = solved partial,
       capacity = capacity partial \<rparr>"

text \<open>
  \<open>bound\<close>: both constructors set \<open>lower_bound\<close> to a number, so the TypeError handler
  of the source never runs.
\<close>

definition bound :: "partial_solution \<Rightarrow> error + partial_solution" where
  "bound p =
     (case bound_matrix (distance_matrix p) of
        Inl e \<Rightarrow> Inl e
      | Inr (m, lb) \<Rightarrow> Inr (p\<lparr>distance_matrix := m, lower_bound := fadd (lower_bound p) lb\<rparr>))"

subsection \<open>Finding an edge in the matrix\<close>

fun find_index_from :: "('a \<Rightarrow> bool) \<Rightarrow> 'a list \<Rightarrow> nat \<Rightarrow> nat option" where
  "find_index_from P [] i = None"
| "find_index_from P (x # xs) i = (if P x then Some i else find_index_from P xs (Suc i))"

definition edge_to_real_indexes :: "matrix \<Rightarrow> edge \<Rightarrow> error + nat \<times> nat" where
  "edge_to_real_indexes m e =
     (case (find_index_from (\<lambda>x. lab_eq (fst e) (Some x)) (map hd m) 0,
            find_index_from (\<lambda>x. lab_eq (snd e) (Some x)) (hd m) 0) of
        (Some i, Some j) \<Rightarrow> Inr (i, j)
      | _ \<Rightarrow> Inl ValueError)"

subsection \<open>\<open>select_edge\<close>\<close>

text \<open>
  The test \<open>matrix[i, j] is 0\<close> compares the identity of a numpy float with the int 0
  and is false for every cell, so no cell is skipped.
\<close>

definition is_int_zero :: "fval \<Rightarrow> bool" where
  "is_int_zero x = False"

definition select_step :: "matrix \<Rightarrow> nat \<times> nat \<Rightarrow> edge \<times> fval \<Rightarrow> error + edge \<times> fval" where
  "select_step m ij st =
     (case ij of (i, j) \<Rightarrow>
      (case cell m i j of
         Inl e \<Rightarrow> Inl e
       | Inr v \<Rightarrow>
          if is_int_zero v then Inr st
          else
           (case py_min ((tl (m ! i))[j - 1 := PInf]) of
              Inl e \<Rightarrow> Inl e
            | Inr rmin \<Rightarrow>
               (case py_min ((map (\<lambda>r. r ! j) (tl m))[i - 1 := PInf]) of
                  Inl e \<Rightarrow> Inl e
                | Inr cmin \<Rightarrow>
                   (let penalty = fadd rmin cmin
                    in if fgt penalty (snd st)
                       then Inr ((Some (m ! i ! 0), Some (m ! 0 ! j)), penalty)
                       else Inr st)))))"

definition select_edge :: "matrix \<Rightarrow> error + edge" where
  "select_edge m =
     (case fold_err (select_step m) (List.product [1..<length m] [1..<length m]) ((None, None), Fin 0) of
        Inl e \<Rightarrow> Inl e
      | Inr st \<Rightarrow> Inr (fst st))"

subsection \<open>Leaves\<close>

text \<open>\<open>len(...) is 3\<close> is true for the length 3: CPython shares its small integers.\<close>

definition is_leaf :: "matrix \<Rightarrow> error + bool" where
  "is_leaf m = (if length m = 3 then Inr True else if length m < 3 then Inl ValueError else Inr False)"

definition leaf_row_edge :: "matrix \<Rightarrow> nat \<Rightarrow> error + edge" where
  "leaf_row_edge m r =
     (case cell m r 0 of Inl e \<Rightarrow> Inl e | Inr row_index \<Rightarrow>
      (case cell m r 1 of Inl e \<Rightarrow> Inl e | Inr a \<Rightarrow>
        if \<not> feq a PInf then
          (case cell m 0 1 of Inl e \<Rightarrow> Inl e | Inr c \<Rightarrow> Inr (Some row_index, Some c))
        else
          (case cell m r 2 of Inl e \<Rightarrow> Inl e | Inr b \<Rightarrow>
            if \<not> feq b PInf then
              (case cell m 0 2 of Inl e \<Rightarrow> Inl e | Inr c \<Rightarrow> Inr (Some row_index, Some c))
            else Inl ValueError)))"

definition solve_leaf :: "partial_solution \<Rightarrow> error + partial_solution" where
  "solve_leaf p =
     (case leaf_row_edge (distance_matrix p) 1 of Inl e \<Rightarrow> Inl e | Inr edge1 \<Rightarrow>
      (case leaf_row_edge (distance_matrix p) 2 of Inl e \<Rightarrow> Inl e | Inr edge2 \<Rightarrow>
        Inr (p\<lparr>edges := (fst (edges p) @ [edge1, edge2], snd (edges p)), solved := True\<rparr>)))"

subsection \<open>\<open>construct_routes\<close>\<close>

text \<open>
  An edge is tried at every position of every route: it goes before a route edge that
  starts where it ends, or after one that ends where it starts. The tests
  \<open>edge[1] is not DEPOT\<close> and \<open>edge[0] is not DEPOT\<close> compare the identity of an id of
  the matrix with the int 1 and are true for every id. After an insertion the scan
  of that route stops, the scan of the other routes goes on.
\<close>

definition insert_at :: "nat \<Rightarrow> 'a \<Rightarrow> 'a list \<Rightarrow> 'a list" where
  "insert_at i x xs = take i xs @ x # drop i xs"

definition is_not_DEPOT :: "label \<Rightarrow> bool" where
  "is_not_DEPOT x = True"

fun try_insert_at :: "edge \<Rightarrow> edge list \<Rightarrow> nat list \<Rightarrow> edge list \<times> bool" where
  "try_insert_at e route [] = (route, False)"
| "try_insert_at e route (i # is) =
     (if lab_eq (snd e) (fst (route ! i)) \<and> is_not_DEPOT (snd e) then
        (if i = 0 \<or> lab_eq (snd (route ! (i - 1))) (fst e)
         then (insert_at i e route, True)
         else try_insert_at e route is)
      else if lab_eq (snd (route ! i)) (fst e) \<and> is_not_DEPOT (fst e) then
        (if i = length route - 1 \<or> lab_eq (snd e) (fst (route ! (i + 1)))
         then (insert_at (i + 1) e route, True)
         else try_insert_at e route is)
      else try_insert_at e route is)"

definition try_insert :: "edge \<Rightarrow> edge list \<Rightarrow> edge list \<times> bool" where
  "try_insert e route = try_insert_at e route [0..<length route]"

fun insert_all :: "edge \<Rightarrow> edge list list \<Rightarrow> edge list list \<times> bool" where
  "insert_all e [] = ([], False)"
| "insert_all e (r # rs) =
     (let (r', b) = try_insert e r; (rs', b') = insert_all e rs in (r' # rs', b \<or> b'))"

text \<open>
  One turn of the \<open>while edges\<close> loop. The deque is a list whose right end is its last
  element; \<open>memo\<close> counts the failed attempts of an edge, which is put back at the left
  until the count passes 10 and then opens a route of its own. The dictionary finds the
  key of an edge that was put back, which is the same tuple object.
\<close>

type_synonym construct_state = "edge list \<times> (edge \<Rightarrow> nat option) \<times> edge list list"

definition construct_step :: "construct_state \<Rightarrow> construct_state" where
  "construct_step st =
     (case st of (q, memo, rts) \<Rightarrow>
       (let e = last q; q' = butlast q; (rts', inserted) = insert_all e rts in
        if inserted then (q', memo, rts')
        else
          (case memo e of
             Some c \<Rightarrow>
               if c + 1 > 10 then (q', memo(e \<mapsto> c + 1), rts' @ [[e]])
               else (e # q', memo(e \<mapsto> c + 1), rts')
           | None \<Rightarrow> (e # q', memo(e \<mapsto> 1), rts'))))"

definition attempts_left :: "(edge \<Rightarrow> nat option) \<Rightarrow> edge \<Rightarrow> nat" where
  "attempts_left memo e = 12 - (case memo e of None \<Rightarrow> 0 | Some c \<Rightarrow> min c 11)"

definition construct_weight :: "construct_state \<Rightarrow> nat" where
  "construct_weight st = (case st of (q, memo, rts) \<Rightarrow> sum_list (map (attempts_left memo) q))"

text \<open>Every turn uses up one of the attempts that the edges of the queue have left.\<close>

lemma attempts_left_pos: "0 < attempts_left memo e"
  by (auto simp: attempts_left_def split: option.split)

lemma attempts_left_upd_le:
  assumes "case memo e of None \<Rightarrow> True | Some c \<Rightarrow> c \<le> c'"
  shows "attempts_left (memo(e \<mapsto> c')) x \<le> attempts_left memo x"
  using assms by (auto simp: attempts_left_def split: option.splits)

lemma weight_upd_le:
  assumes "case memo e of None \<Rightarrow> True | Some c \<Rightarrow> c \<le> c'"
  shows "sum_list (map (attempts_left (memo(e \<mapsto> c'))) xs) \<le> sum_list (map (attempts_left memo) xs)"
proof (rule sum_list_mono)
  fix x show "attempts_left (memo(e \<mapsto> c')) x \<le> attempts_left memo x"
    using assms by (rule attempts_left_upd_le)
qed

lemma construct_step_decreases:
  assumes "fst st \<noteq> []"
  shows "construct_weight (construct_step st) < construct_weight st"
proof -
  obtain q memo rts where st: "st = (q, memo, rts)" by (cases st) auto
  with assms obtain xs e where q: "q = xs @ [e]" by (cases q rule: rev_cases) auto
  obtain rts' ins where ia: "insert_all e rts = (rts', ins)" by (cases "insert_all e rts") auto
  have pos: "0 < attempts_left memo e" by (rule attempts_left_pos)
  show ?thesis
  proof (cases ins)
    case True
    then show ?thesis using pos by (simp add: st q ia construct_step_def construct_weight_def)
  next
    case False
    show ?thesis
    proof (cases "memo e")
      case None
      have "sum_list (map (attempts_left (memo(e \<mapsto> 1))) xs) \<le> sum_list (map (attempts_left memo) xs)"
        by (rule weight_upd_le) (simp add: None)
      moreover have "attempts_left (memo(e \<mapsto> 1)) e < attempts_left memo e"
        by (simp add: attempts_left_def None)
      ultimately show ?thesis using False None
        by (simp add: st q ia construct_step_def construct_weight_def)
    next
      case (Some c)
      have le: "sum_list (map (attempts_left (memo(e \<mapsto> Suc c))) xs) \<le> sum_list (map (attempts_left memo) xs)"
        by (rule weight_upd_le) (simp add: Some)
      show ?thesis
      proof (cases "c + 1 > 10")
        case True
        then show ?thesis using False Some le pos
          by (simp add: st q ia construct_step_def construct_weight_def)
      next
        case c: False
        have "attempts_left (memo(e \<mapsto> Suc c)) e < attempts_left memo e"
          using c by (simp add: attempts_left_def Some)
        then show ?thesis using False Some le c
          by (simp add: st q ia construct_step_def construct_weight_def)
      qed
    qed
  qed
qed

function construct_loop :: "construct_state \<Rightarrow> edge list list" where
  "construct_loop st = (if fst st = [] then snd (snd st) else construct_loop (construct_step st))"
  by pat_completeness auto
termination
  by (relation "measure construct_weight") (simp_all add: construct_step_decreases)

definition construct_routes :: "partial_solution \<Rightarrow> error + partial_solution" where
  "construct_routes p =
     (if fst (edges p) = [] then Inl IndexError
      else Inr (p\<lparr>routes :=
             Some (construct_loop (butlast (fst (edges p)), Map.empty, [[last (fst (edges p))]]))\<rparr>))"

subsection \<open>Routes as node sequences\<close>

text \<open>\<open>exit is DEPOT\<close> compares the identity of an id with the int 1 and is false.\<close>

definition is_DEPOT :: "label \<Rightarrow> bool" where
  "is_DEPOT x = False"

fun nodes_of_route :: "edge list \<Rightarrow> label list \<Rightarrow> label list" where
  "nodes_of_route [] acc = acc"
| "nodes_of_route (e # es) acc =
     (let acc1 = (if \<not> lab_in (fst e) acc then acc @ [fst e] else acc);
          acc2 = (if \<not> lab_in (snd e) acc1 \<or> is_DEPOT (snd e) then acc1 @ [snd e] else acc1)
      in nodes_of_route es acc2)"

definition routes_edges_to_nodes :: "partial_solution \<Rightarrow> error + label list list" where
  "routes_edges_to_nodes p =
     (case routes p of
        None \<Rightarrow> Inl TypeError
      | Some rs \<Rightarrow> Inr (map (\<lambda>r. nodes_of_route r []) rs))"

subsection \<open>\<open>prevent_revisiting\<close>\<close>

definition prevent_step :: "label list \<Rightarrow> matrix \<Rightarrow> error + matrix" where
  "prevent_step route m =
     (if route = [] then Inl IndexError
      else
        (case edge_to_real_indexes m (last route, hd route) of
           Inl e \<Rightarrow> Inr m
         | Inr (i, j) \<Rightarrow> Inr (set_cell m i j PInf)))"

definition prevent_revisiting :: "partial_solution \<Rightarrow> error + partial_solution" where
  "prevent_revisiting p =
     (case routes_edges_to_nodes p of
        Inl e \<Rightarrow> Inl e
      | Inr rs \<Rightarrow>
         (case fold_err prevent_step rs (distance_matrix p) of
            Inl e \<Rightarrow> Inl e
          | Inr m \<Rightarrow> Inr (p\<lparr>distance_matrix := m\<rparr>)))"

subsection \<open>\<open>set_is_feasible\<close>\<close>

text \<open>\<open>int(node_id)\<close> truncates towards zero and raises on None, an infinity or NaN.\<close>

fun py_int :: "label \<Rightarrow> error + int" where
  "py_int None = Inl TypeError"
| "py_int (Some (Fin q)) = Inr (if 0 \<le> q then \<lfloor>q\<rfloor> else \<lceil>q\<rceil>)"
| "py_int (Some PInf) = Inl OverflowError"
| "py_int (Some NInf) = Inl OverflowError"
| "py_int (Some NaN) = Inl ValueError"

text \<open>The state of the load loop of one route: the load and the flag.\<close>

definition load_step :: "(int \<Rightarrow> rat option) \<Rightarrow> rat \<Rightarrow> label \<Rightarrow> rat \<times> feas \<Rightarrow> error + rat \<times> feas" where
  "load_step net cap node_id st =
     (case py_int node_id of
        Inl e \<Rightarrow> Inl e
      | Inr n \<Rightarrow>
         (case net n of
            None \<Rightarrow> Inl LookupFailure
          | Some d \<Rightarrow>
             (let load = fst st + d
              in Inr (load, if load > cap then FBool False else snd st))))"

definition route_load :: "(int \<Rightarrow> rat option) \<Rightarrow> rat \<Rightarrow> label list \<Rightarrow> feas \<Rightarrow> error + feas" where
  "route_load net cap route f =
     (case fold_err (load_step net cap) route (0, f) of
        Inl e \<Rightarrow> Inl e
      | Inr st \<Rightarrow> Inr (snd st))"

definition set_is_feasible :: "partial_solution \<Rightarrow> error + partial_solution" where
  "set_is_feasible p =
     (case routes_edges_to_nodes p of
        Inl e \<Rightarrow> Inl e
      | Inr rs \<Rightarrow>
         (case fold_err (route_load (network p) (capacity p)) rs (is_feasible p) of
            Inl e \<Rightarrow> Inl e
          | Inr f \<Rightarrow> Inr (p\<lparr>is_feasible := f\<rparr>)))"

subsection \<open>\<open>calculate_value\<close>\<close>

fun route_distance :: "(fval \<Rightarrow> fval \<Rightarrow> error + fval) \<Rightarrow> label list \<Rightarrow> fval \<Rightarrow> error + fval" where
  "route_distance lk (a # b # rest) d =
     (case (a, b) of
        (Some x, Some y) \<Rightarrow>
          (case lk (fsub x (Fin 1)) (fsub y (Fin 1)) of
             Inl e \<Rightarrow> Inl e
           | Inr v \<Rightarrow> route_distance lk (b # rest) (fadd d v))
      | _ \<Rightarrow> Inl TypeError)"
| "route_distance lk route d = Inr d"

definition calculate_value :: "partial_solution \<Rightarrow> error + fval" where
  "calculate_value p =
     (case routes_edges_to_nodes p of
        Inl e \<Rightarrow> Inl e
      | Inr rs \<Rightarrow> fold_err (route_distance (lookup p)) rs (Fin 0))"

subsection \<open>The two branching steps\<close>

definition delete_at :: "nat \<Rightarrow> 'a list \<Rightarrow> 'a list" where
  "delete_at i xs = take i xs @ drop (Suc i) xs"

definition with_edge_branch :: "partial_solution \<Rightarrow> edge \<Rightarrow> error + partial_solution" where
  "with_edge_branch p e =
     (if edge_in e (fst (edges p)) then Inr (p\<lparr>is_feasible := FBool False\<rparr>)
      else
        (case edge_to_real_indexes (distance_matrix p) e of
           Inl err \<Rightarrow> Inl err
         | Inr (i, j) \<Rightarrow>
            (let p1 = p\<lparr>edges := (fst (edges p) @ [e], snd (edges p)),
                        distance_matrix := map (delete_at j) (delete_at i (distance_matrix p))\<rparr>
             in case is_leaf (distance_matrix p1) of
                  Inl err \<Rightarrow> Inl err
                | Inr True \<Rightarrow>
                   (case solve_leaf p1 of
                      Inl err \<Rightarrow> Inl err
                    | Inr p2 \<Rightarrow>
                       if solved p2 then ebind (construct_routes p2) set_is_feasible
                       else Inr (p2\<lparr>is_feasible := FBool False\<rparr>))
                | Inr False \<Rightarrow>
                   ebind (ebind (ebind (construct_routes p1) prevent_revisiting) bound) set_is_feasible)))"

definition without_edge_branch :: "partial_solution \<Rightarrow> edge \<Rightarrow> error + partial_solution" where
  "without_edge_branch p e =
     (if edge_in e (snd (edges p)) then Inr (p\<lparr>is_feasible := FBool False\<rparr>)
      else
        (case edge_to_real_indexes (distance_matrix p) e of
           Inl err \<Rightarrow> Inl err
         | Inr (i, j) \<Rightarrow>
            bound (p\<lparr>edges := (fst (edges p), snd (edges p) @ [e]),
                     distance_matrix := set_cell (distance_matrix p) i j PInf\<rparr>)))"

section \<open>The augmented matrix (\<open>convert\<close>)\<close>

text \<open>
  \<open>convert(matrix, fleet_size)\<close> fills a square list of lists of side
  \<open>len(matrix) + fleet_size\<close> with infinity and then writes, loop after loop, the label
  row, the label column, the depot rows, the depot columns and the customer block. A read
  of \<open>matrix\<close> outside its rows raises IndexError. With an empty \<open>matrix\<close> the function
  raises IndexError at \<open>converted[0]\<close> (fleet size 0) or at \<open>converted[fleet_size]\<close>.
  In the loop of the depot columns the bound \<open>len(converted[i])\<close> reads a row that
  exists, and every row has the same length.
\<close>

definition label_of :: "nat \<Rightarrow> nat \<Rightarrow> fval" where
  "label_of fleet_size i = (if i \<le> fleet_size then Fin 1 else Fin (of_nat (i - fleet_size + 1)))"

definition put :: "(nat \<times> nat \<Rightarrow> error + fval) \<Rightarrow> nat \<times> nat \<Rightarrow> matrix \<Rightarrow> error + matrix" where
  "put v ij c = (case v ij of Inl e \<Rightarrow> Inl e | Inr x \<Rightarrow> Inr (set_cell c (fst ij) (snd ij) x))"

definition convert :: "matrix \<Rightarrow> nat \<Rightarrow> error + matrix" where
  "convert D fleet_size =
     (if D = [] then Inl IndexError
      else
       (let n = length D + fleet_size;
            c0 = replicate n (replicate n PInf)
        in
        ebind (fold_err (put (\<lambda>ij. Inr (label_of fleet_size (snd ij)))) (map (\<lambda>i. (0, i)) [1..<n]) c0) (\<lambda>c1.
        ebind (fold_err (put (\<lambda>ij. Inr (label_of fleet_size (fst ij)))) (map (\<lambda>i. (i, 0)) [1..<n]) c1) (\<lambda>c2.
        ebind (fold_err (put (\<lambda>ij. cell D 0 (snd ij - fleet_size)))
                 (List.product [1..<fleet_size + 1] [fleet_size + 1..<n]) c2) (\<lambda>c3.
        ebind (fold_err (put (\<lambda>ij. cell D (fst ij - fleet_size) 0))
                 (map (\<lambda>ji. (snd ji, fst ji)) (List.product [1..<fleet_size + 1] [fleet_size + 1..<n])) c3) (\<lambda>c4.
        fold_err (put (\<lambda>ij. case cell D (fst ij - fleet_size) (snd ij - fleet_size) of
                               Inl e \<Rightarrow> Inl e
                             | Inr x \<Rightarrow> Inr (if fst ij = snd ij then PInf else x)))
                 (List.product [fleet_size + 1..<n] [fleet_size + 1..<n]) c4))))))"



section \<open>The engine\<close>

record engine =
  partial_solutions :: "partial_solution list"
  upper_bound :: "fval option"
  current_best :: "partial_solution option"
  times_branched :: nat
  initial_upper_bound :: "fval option"



subsection \<open>Selection\<close>

text \<open>
  \<open>is_more_promising\<close> returns True in one case, False when the bound of \<open>current\<close> is
  greater, and nothing (None, which the caller reads as false) otherwise.
\<close>

definition is_more_promising :: "partial_solution \<Rightarrow> partial_solution \<Rightarrow> bool" where
  "is_more_promising best current =
     (if fle (lower_bound current) (lower_bound best)
      then (if length (fst (edges current)) > length (fst (edges best)) then True else False)
      else False)"

fun most_promising_from :: "partial_solution list \<Rightarrow> nat \<Rightarrow> partial_solution \<times> nat \<Rightarrow> partial_solution \<times> nat" where
  "most_promising_from [] i acc = acc"
| "most_promising_from (s # ss) i acc =
     most_promising_from ss (Suc i) (if is_more_promising (fst acc) s then (s, i) else acc)"

definition pop_most_promising_solution :: "engine \<Rightarrow> error + partial_solution \<times> engine" where
  "pop_most_promising_solution st =
     (case partial_solutions st of
        [] \<Rightarrow> Inl IndexError
      | s0 # ss \<Rightarrow>
         (let index = snd (most_promising_from (partial_solutions st) 0 (s0, 0))
          in Inr (partial_solutions st ! index,
                  st\<lparr>partial_solutions := delete_at index (partial_solutions st)\<rparr>)))"

subsection \<open>Branching\<close>


subsection \<open>Pruning\<close>

text \<open>
  \<open>prune\<close> walks the pool with the iterator of the list and removes from the same
  list: the iterator holds a position, so after a removal at position \<open>i\<close> it goes on at
  \<open>i + 1\<close> of the shortened list. The nodes of the pool are distinct objects without an
  equality of their own, so \<open>remove(solution)\<close> removes the node at the position of the
  iterator. A comparison with the upper bound None raises TypeError.
\<close>

definition prune_at :: "nat \<Rightarrow> engine \<Rightarrow> error + engine" where
  "prune_at i st =
     (let solution = partial_solutions st ! i;
          removed = (\<lambda>s. s\<lparr>partial_solutions := delete_at i (partial_solutions s)\<rparr>)
      in
      if solved solution then
        (if truthy (is_feasible solution) then
           (case calculate_value solution of
              Inl e \<Rightarrow> Inl e
            | Inr v \<Rightarrow>
               (case upper_bound st of
                  None \<Rightarrow> Inl TypeError
                | Some ub \<Rightarrow>
                   if flt v ub
                   then Inr (removed (st\<lparr>upper_bound := Some v, current_best := Some solution\<rparr>))
                   else Inr (removed st)))
         else Inr (removed st))
      else
        (case upper_bound st of
           None \<Rightarrow> Inl TypeError
         | Some ub \<Rightarrow>
            if fge (lower_bound solution) ub then Inr (removed st)
            else if is_feasible solution = FBool False then Inr (removed st)
            else Inr st))"

lemma length_delete_at_le: "length (delete_at i xs) \<le> length xs"
  by (simp add: delete_at_def)

lemma prune_at_length:
  assumes "prune_at i st = Inr st'"
  shows "length (partial_solutions st') \<le> length (partial_solutions st)"
  using assms
  by (auto simp: prune_at_def Let_def length_delete_at_le split: if_splits sum.splits option.splits)


function prune_loop :: "nat \<Rightarrow> engine \<Rightarrow> error + engine" where
  "prune_loop i st =
     (if length (partial_solutions st) \<le> i then Inr st
      else
        (case prune_at i st of
           Inl e \<Rightarrow> Inl e
         | Inr st' \<Rightarrow> prune_loop (Suc i) st'))"
  by pat_completeness auto
termination
proof (relation "measure (\<lambda>(i, st). length (partial_solutions st) - i)")
  show "wf (measure (\<lambda>(i, st). length (partial_solutions st) - i))" by simp
next
  fix i st st'
  assume "\<not> length (partial_solutions st) \<le> i" and "prune_at i st = Inr st'"
  then show "((Suc i, st'), (i, st)) \<in> measure (\<lambda>(i, st). length (partial_solutions st) - i)"
    using prune_at_length [of i st st'] by simp
qed

declare prune_loop.simps [simp del]

definition prune :: "engine \<Rightarrow> error + engine" where
  "prune st = prune_loop 0 st"


subsection \<open>The loop of \<open>run\<close>\<close>






section \<open>Concrete nodes and pools\<close>

text \<open>
  Matrices of one depot (id 1) and two customers (ids 2 and 3) with one vehicle, as
  \<open>convert\<close> lays them out, and nodes and engines built around them.
\<close>

definition node_of :: "matrix \<Rightarrow> fval \<Rightarrow> edge list \<times> edge list \<Rightarrow> partial_solution" where
  "node_of m lb es =
     \<lparr> lookup = (\<lambda>a b. Inr (Fin 1)),
       network = (\<lambda>n. Some 0),
       routes = None,
       distance_matrix = m,
       lower_bound = lb,
       edges = es,
       is_feasible = FBool True,
       solved = False,
       capacity = 10 \<rparr>"

definition all_zero_matrix :: matrix where
  "all_zero_matrix =
     [[PInf, Fin 1, Fin 2, Fin 3],
      [Fin 1, PInf, Fin 0, Fin 0],
      [Fin 2, Fin 0, PInf, Fin 0],
      [Fin 3, Fin 0, Fin 0, PInf]]"

definition excluded_matrix :: matrix where
  "excluded_matrix =
     [[PInf, Fin 1, Fin 2, Fin 3],
      [Fin 1, PInf, Fin 0, Fin 0],
      [Fin 2, Fin 0, PInf, PInf],
      [Fin 3, Fin 0, Fin 0, PInf]]"

definition unreduced_matrix :: matrix where
  "unreduced_matrix =
     [[PInf, Fin 1, Fin 2, Fin 3],
      [Fin 1, PInf, Fin 5, Fin 7],
      [Fin 2, Fin 4, PInf, Fin 6],
      [Fin 3, Fin 8, Fin 9, PInf]]"

definition dead_leaf_matrix :: matrix where
  "dead_leaf_matrix =
     [[PInf, Fin 1, Fin 2, Fin 3],
      [Fin 1, PInf, Fin 0, Fin 0],
      [Fin 2, Fin 0, PInf, Fin 0],
      [Fin 3, PInf, Fin 0, PInf]]"

definition engine_of :: "partial_solution list \<Rightarrow> fval option \<Rightarrow> engine" where
  "engine_of pool ub =
     \<lparr> partial_solutions = pool, upper_bound = ub, current_best = None,
       times_branched = 0, initial_upper_bound = ub \<rparr>"

section \<open>Selection, pruning and edge choice on concrete pools\<close>

text \<open>
  Claim C1 (the node popped has a minimum lower bound, ties going to the larger number
  of included edges). On the pool of a node with bound 10 and a node with bound 5, both
  with one included edge, \<open>pop_most_promising_solution\<close> pops the node with bound 10
  and leaves the node with bound 5: \<open>is_more_promising\<close> answers True only for a node
  with strictly more included edges.
\<close>

theorem C1_pop_ignores_lower_bound:
  "map_sum id (\<lambda>r. (lower_bound (fst r), map lower_bound (partial_solutions (snd r))))
     (pop_most_promising_solution
        (engine_of
           [node_of all_zero_matrix (Fin 10) ([(Some (Fin 1), Some (Fin 2))], []),
            node_of all_zero_matrix (Fin 5) ([(Some (Fin 1), Some (Fin 2))], [])]
           (Some PInf)))
   = Inr (Fin 10, [Fin 5])"
  by code_simp

text \<open>
  Claim C2 (the sweep removes every node whose lower bound is at least the incumbent
  value). With the incumbent value 5 and a pool of two open nodes of bound 10, \<open>prune\<close>
  removes the first and steps over the second, which stays in the pool.
\<close>

theorem C2_prune_skips_node:
  "map_sum id (\<lambda>st. map lower_bound (partial_solutions st))
     (prune (engine_of
               [node_of all_zero_matrix (Fin 10) ([], []), node_of all_zero_matrix (Fin 10) ([], [])]
               (Some (Fin 5))))
   = Inr [Fin 10]
   \<and> fge (Fin 10) (Fin 5)"
  by code_simp

text \<open>
  Claim C3 (\<open>select_edge\<close> looks at the zero cells only and returns the edge of a zero
  cell of maximum penalty). On a reduced matrix whose zero cells all have penalty 0,
  \<open>select_edge\<close> returns the pair \<open>(None, None)\<close> and no edge; on a matrix without a
  zero cell it returns the edge of a cell of value 5.
\<close>

theorem C3_select_edge_returns_no_edge:
  "select_edge all_zero_matrix = Inr (None, None)
   \<and> select_edge unreduced_matrix = Inr (Some (Fin 1), Some (Fin 2))
   \<and> cell unreduced_matrix 1 2 = Inr (Fin 5)"
  by code_simp

section \<open>Branching on a decided edge, leaves and clones\<close>

text \<open>
  Claim C6, as stated (an edge in either set makes \<open>with_edge_branch\<close> set the
  feasibility to false and change nothing else; no edge is in both sets): the step on an
  edge of the excluded list includes the edge, which is then in both lists, and solves the
  node.
\<close>

theorem C6_excluded_edge_gets_included:
  "edge_in (Some (Fin 2), Some (Fin 3))
     (snd (edges (node_of excluded_matrix (Fin 0) ([], [(Some (Fin 2), Some (Fin 3))]))))
   \<and> map_sum id (\<lambda>p. (edges p, is_feasible p, solved p))
       (with_edge_branch (node_of excluded_matrix (Fin 0) ([], [(Some (Fin 2), Some (Fin 3))]))
          (Some (Fin 2), Some (Fin 3)))
     = Inr (([(Some (Fin 2), Some (Fin 3)), (Some (Fin 1), Some (Fin 2)), (Some (Fin 3), Some (Fin 1))],
             [(Some (Fin 2), Some (Fin 3))]),
            FBool True, True)"
  by code_simp

text \<open>
  Claim C6, amended: \<open>with_edge_branch\<close> on an edge of the included list, and
  \<open>without_edge_branch\<close> on an edge of the excluded list, return the node with the
  feasibility False and nothing else changed, and raise nothing.
\<close>

theorem C6_decided_edge_in_own_set:
  "(edge_in e (fst (edges p)) \<longrightarrow> with_edge_branch p e = Inr (p\<lparr>is_feasible := FBool False\<rparr>))
   \<and> (edge_in e (snd (edges p)) \<longrightarrow> without_edge_branch p e = Inr (p\<lparr>is_feasible := FBool False\<rparr>))"
  by (simp add: with_edge_branch_def without_edge_branch_def)

theorem C6_decided_edge_in_own_set_witness:
  "edge_in (Some (Fin 2), Some (Fin 3))
     (fst (edges (node_of all_zero_matrix (Fin 0) ([(Some (Fin 2), Some (Fin 3))], [(Some (Fin 2), Some (Fin 3))]))))
   \<and> edge_in (Some (Fin 2), Some (Fin 3))
     (snd (edges (node_of all_zero_matrix (Fin 0) ([(Some (Fin 2), Some (Fin 3))], [(Some (Fin 2), Some (Fin 3))]))))
   \<and> with_edge_branch (node_of all_zero_matrix (Fin 0) ([(Some (Fin 2), Some (Fin 3))], [(Some (Fin 2), Some (Fin 3))]))
        (Some (Fin 2), Some (Fin 3))
      = Inr ((node_of all_zero_matrix (Fin 0) ([(Some (Fin 2), Some (Fin 3))], [(Some (Fin 2), Some (Fin 3))]))
               \<lparr>is_feasible := FBool False\<rparr>)
   \<and> without_edge_branch (node_of all_zero_matrix (Fin 0) ([(Some (Fin 2), Some (Fin 3))], [(Some (Fin 2), Some (Fin 3))]))
        (Some (Fin 2), Some (Fin 3))
      = Inr ((node_of all_zero_matrix (Fin 0) ([(Some (Fin 2), Some (Fin 3))], [(Some (Fin 2), Some (Fin 3))]))
               \<lparr>is_feasible := FBool False\<rparr>)"
proof -
  let ?e = "(Some (Fin 2), Some (Fin 3)) :: edge"
  let ?p = "node_of all_zero_matrix (Fin 0) ([?e], [?e])"
  have a: "edge_in ?e (fst (edges ?p))" by code_simp
  have b: "edge_in ?e (snd (edges ?p))" by code_simp
  from C6_decided_edge_in_own_set [of ?e ?p] a b show ?thesis by blast
qed

text \<open>
  Claim C7 (a leaf without a finite cell in one of its rows makes the node infeasible
  and raises nothing). Including the edge (1, 2) leaves the rows of the nodes 2 and 3;
  the row of node 3 holds no finite cell and \<open>with_edge_branch\<close> ends with the ValueError
  of \<open>solve_leaf\<close>.
\<close>

theorem C7_leaf_raises:
  "map_sum id is_feasible
     (with_edge_branch (node_of dead_leaf_matrix (Fin 0) ([], [(Some (Fin 3), Some (Fin 1))]))
        (Some (Fin 1), Some (Fin 2)))
   = Inl ValueError"
  by code_simp

text \<open>
  Claim C9 (a clone has the feasibility flag of its parent). The parent's flag is True;
  the flag of its clone is the parent's dictionary of edges.
\<close>

theorem C9_clone_feasibility_is_edges:
  "is_feasible (node_of all_zero_matrix (Fin 0) ([], [])) = FBool True
   \<and> is_feasible (init_from_partial (node_of all_zero_matrix (Fin 0) ([], []))) = FEdges ([], [])"
  by code_simp

section \<open>Termination of the search\<close>


section \<open>Infinite rows and columns in the reduction\<close>

text \<open>The values that are no finite number and not minus infinity.\<close>

definition inf_or_nan :: "fval \<Rightarrow> bool" where
  "inf_or_nan x = (x = PInf \<or> x = NaN)"

lemma fadd_NaN_right [simp]: "fadd x NaN = NaN"
  by (cases x) simp_all

lemma fadd_inf_or_nan_right: "inf_or_nan y \<Longrightarrow> inf_or_nan (fadd x y)"
  by (cases x; cases y) (simp_all add: inf_or_nan_def)

lemma fadd_inf_or_nan_left: "inf_or_nan x \<Longrightarrow> inf_or_nan (fadd x y)"
  by (cases x; cases y) (simp_all add: inf_or_nan_def)

lemma fsub_PInf_left: "inf_or_nan (fsub PInf y)"
  by (cases y) (simp_all add: inf_or_nan_def fsub_def)

lemma fsub_inf_or_nan: "inf_or_nan x \<Longrightarrow> inf_or_nan y \<Longrightarrow> fsub x y = NaN"
  by (cases x; cases y) (simp_all add: inf_or_nan_def fsub_def)

lemma fsub_NaN_right [simp]: "fsub x NaN = NaN"
  by (simp add: fsub_def)

lemma foldl_np_minimum_PInf:
  "\<forall>x \<in> set xs. x = PInf \<Longrightarrow> foldl np_minimum PInf xs = PInf"
  by (induction xs) (simp_all add: np_minimum_def)

lemma np_min_all_PInf: "\<forall>x \<in> set xs. x = PInf \<Longrightarrow> np_min xs = PInf"
  by (cases xs) (simp_all add: foldl_np_minimum_PInf)

lemma foldl_np_minimum_NaN: "foldl np_minimum NaN xs = NaN"
  by (induction xs) (simp_all add: np_minimum_def)

lemma foldl_np_minimum_has_NaN: "NaN \<in> set xs \<Longrightarrow> foldl np_minimum a xs = NaN"
  by (induction xs arbitrary: a) (auto simp: np_minimum_def foldl_np_minimum_NaN)

lemma np_min_has_NaN: "NaN \<in> set xs \<Longrightarrow> np_min xs = NaN"
  by (cases xs) (auto simp: foldl_np_minimum_has_NaN foldl_np_minimum_NaN)

lemma foldl_np_minimum_inf_or_nan:
  "inf_or_nan a \<Longrightarrow> \<forall>x \<in> set xs. inf_or_nan x \<Longrightarrow> inf_or_nan (foldl np_minimum a xs)"
  by (induction xs arbitrary: a) (auto simp: np_minimum_def inf_or_nan_def)

lemma np_min_inf_or_nan:
  "\<forall>x \<in> set xs. inf_or_nan x \<Longrightarrow> inf_or_nan (np_min xs)"
proof (cases xs)
  case Nil
  then show ?thesis by (simp add: inf_or_nan_def)
next
  case (Cons y ys)
  assume "\<forall>x \<in> set xs. inf_or_nan x"
  with Cons show ?thesis by (simp add: foldl_np_minimum_inf_or_nan)
qed

lemma foldl_fadd_inf_or_nan_acc: "inf_or_nan a \<Longrightarrow> inf_or_nan (foldl fadd a xs)"
  by (induction xs arbitrary: a) (simp_all add: fadd_inf_or_nan_left)

lemma foldl_fadd_has_inf_or_nan:
  "\<exists>x \<in> set xs. inf_or_nan x \<Longrightarrow> inf_or_nan (foldl fadd a xs)"
proof (induction xs arbitrary: a)
  case Nil
  then show ?case by simp
next
  case (Cons x xs)
  show ?case
  proof (cases "inf_or_nan x")
    case True
    then have "inf_or_nan (fadd a x)" by (rule fadd_inf_or_nan_right)
    then show ?thesis by (simp add: foldl_fadd_inf_or_nan_acc)
  next
    case False
    with Cons.prems have "\<exists>y \<in> set xs. inf_or_nan y" by auto
    from Cons.IH [OF this] show ?thesis by simp
  qed
qed

lemma py_sum_has_inf_or_nan: "\<exists>x \<in> set xs. inf_or_nan x \<Longrightarrow> inf_or_nan (py_sum xs)"
  unfolding py_sum_def by (rule foldl_fadd_has_inf_or_nan)

lemma foldl_fadd_NaN_acc: "foldl fadd NaN xs = NaN"
  by (induction xs) simp_all

lemma foldl_fadd_has_NaN: "NaN \<in> set xs \<Longrightarrow> foldl fadd a xs = NaN"
  by (induction xs arbitrary: a) (auto simp: foldl_fadd_NaN_acc)

lemma py_sum_has_NaN: "NaN \<in> set xs \<Longrightarrow> py_sum xs = NaN"
  unfolding py_sum_def by (rule foldl_fadd_has_NaN)

text \<open>Cells of the two subtraction steps.\<close>

lemma sub_rows_row:
  assumes "1 \<le> i" and "i < length m"
  shows "sub_rows m ! i = hd (m ! i) # map (\<lambda>x. fsub x (np_min (tl (m ! i)))) (tl (m ! i))"
proof -
  from assms obtain k where k: "i = Suc k" by (cases i) auto
  with assms have "k < length (tl m)" by simp
  then show ?thesis using k by (simp add: sub_rows_def nth_tl)
qed

lemma sub_rows_cell:
  assumes "1 \<le> i" and "i < length m" and "1 \<le> j" and "j < length (m ! i)"
  shows "sub_rows m ! i ! j = fsub (m ! i ! j) (np_min (tl (m ! i)))"
proof -
  from assms obtain k where k: "j = Suc k" by (cases j) auto
  with assms have "k < length (tl (m ! i))" by simp
  then show ?thesis using k assms by (simp add: sub_rows_row nth_tl)
qed

lemma length_sub_rows: "m \<noteq> [] \<Longrightarrow> length (sub_rows m) = length m"
  by (cases m) (simp_all add: sub_rows_def)

lemma hd_sub_rows: "hd (sub_rows m) = hd m"
  by (simp add: sub_rows_def)

lemma length_sub_rows_row:
  assumes "1 \<le> i" and "i < length m" and "m ! i \<noteq> []"
  shows "length (sub_rows m ! i) = length (m ! i)"
  using assms by (cases "m ! i") (simp_all add: sub_rows_row)

lemma sub_columns_cell:
  assumes "1 \<le> i" and "i < length m" and "1 \<le> j" and "j < length (m ! i)"
  shows "sub_columns m ! i ! j = fsub (m ! i ! j) (np_min (map (\<lambda>r. r ! j) (tl m)))"
proof -
  from assms obtain k where k: "i = Suc k" by (cases i) auto
  from assms obtain l where l: "j = Suc l" by (cases j) auto
  from k assms have kl: "k < length (tl m)" by simp
  from l assms have "l < length [1..<length (m ! i)]" by simp
  then show ?thesis using k l kl assms by (simp add: sub_columns_def nth_tl)
qed

lemma column_has_cell:
  assumes "1 \<le> i" and "i < length m"
  shows "m ! i ! j \<in> set (map (\<lambda>r. r ! j) (tl m))"
proof -
  from assms obtain k where k: "i = Suc k" by (cases i) auto
  with assms have "k < length (tl m)" by simp
  then have "tl m ! k \<in> set (tl m)" by (rule nth_mem)
  then show ?thesis using k assms by (auto simp: nth_tl)
qed

lemma column_cells:
  assumes "x \<in> set (map (\<lambda>r. r ! j) (tl m))"
  shows "\<exists>i. 1 \<le> i \<and> i < length m \<and> x = m ! i ! j"
proof -
  from assms obtain k where "k < length (tl m)" and "x = tl m ! k ! j"
    by (auto simp: in_set_conv_nth)
  then have "1 \<le> Suc k \<and> Suc k < length m \<and> x = m ! Suc k ! j" by (simp add: nth_tl)
  then show ?thesis by blast
qed

text \<open>A numpy array with at least one data row and one data column.\<close>

definition rectangular :: "matrix \<Rightarrow> bool" where
  "rectangular m = (1 < length m \<and> 1 < length (hd m) \<and> list_all (\<lambda>r. length r = length (hd m)) m)"

lemma rectangular_row:
  "rectangular m \<Longrightarrow> i < length m \<Longrightarrow> length (m ! i) = length (hd m)"
  by (simp add: rectangular_def list_all_length)

lemma rectangular_sub_rows_row:
  assumes "rectangular m" and "1 \<le> i" and "i < length m"
  shows "length (sub_rows m ! i) = length (hd m)"
proof -
  from assms have l: "length (m ! i) = length (hd m)" by (simp add: rectangular_row)
  with assms have "m ! i \<noteq> []" by (auto simp: rectangular_def)
  with assms l show ?thesis by (simp add: length_sub_rows_row)
qed

lemma infinite_row_reduced:
  assumes rect: "rectangular m"
    and a: "1 \<le> a" "a < length m"
    and inf: "\<forall>j. 1 \<le> j \<and> j < length (hd m) \<longrightarrow> m ! a ! j = PInf"
  shows "snd (reduce_matrix m) = NaN"
    and "\<forall>i j. 1 \<le> i \<and> i < length m \<and> 1 \<le> j \<and> j < length (hd m) \<longrightarrow> fst (reduce_matrix m) ! i ! j = NaN"
proof -
  let ?m1 = "sub_rows m"
  from rect have ne: "m \<noteq> []" and w: "1 < length (hd m)" by (auto simp: rectangular_def)
  have la: "length (m ! a) = length (hd m)" using rect a by (simp add: rectangular_row)
  have "\<forall>x \<in> set (tl (m ! a)). x = PInf"
  proof
    fix x assume "x \<in> set (tl (m ! a))"
    then obtain k where "k < length (tl (m ! a))" and "x = tl (m ! a) ! k"
      by (auto simp: in_set_conv_nth)
    then have "x = m ! a ! Suc k" and "Suc k < length (hd m)" using la by (simp_all add: nth_tl)
    with inf show "x = PInf" by simp
  qed
  then have rmin: "np_min (tl (m ! a)) = PInf" by (rule np_min_all_PInf)
  have cellNaN: "?m1 ! a ! j = NaN" if "1 \<le> j" "j < length (hd m)" for j
    using that a la inf rmin by (simp add: sub_rows_cell fsub_def)
  have l1: "length ?m1 = length m" using ne by (rule length_sub_rows)
  have cmin: "np_min (map (\<lambda>r. r ! j) (tl ?m1)) = NaN" if "1 \<le> j" "j < length (hd m)" for j
  proof -
    have "?m1 ! a ! j \<in> set (map (\<lambda>r. r ! j) (tl ?m1))"
      using a l1 by (intro column_has_cell) simp_all
    with cellNaN [OF that] have "NaN \<in> set (map (\<lambda>r. r ! j) (tl ?m1))" by simp
    then show ?thesis by (rule np_min_has_NaN)
  qed
  have "1 \<in> set [1..<length (hd ?m1)]" using w by (simp add: hd_sub_rows)
  then have "np_min (map (\<lambda>r. r ! 1) (tl ?m1)) \<in> set (column_minimums ?m1)"
    unfolding column_minimums_def by auto
  with cmin [of 1] w have "NaN \<in> set (column_minimums ?m1)" by simp
  then have "py_sum (column_minimums ?m1) = NaN" by (rule py_sum_has_NaN)
  then show "snd (reduce_matrix m) = NaN" by (simp add: reduce_matrix_def Let_def)
  show "\<forall>i j. 1 \<le> i \<and> i < length m \<and> 1 \<le> j \<and> j < length (hd m) \<longrightarrow> fst (reduce_matrix m) ! i ! j = NaN"
  proof (intro allI impI)
    fix i j assume h: "1 \<le> i \<and> i < length m \<and> 1 \<le> j \<and> j < length (hd m)"
    then have "length (?m1 ! i) = length (hd m)" using rect by (simp add: rectangular_sub_rows_row)
    with h l1 have "sub_columns ?m1 ! i ! j = fsub (?m1 ! i ! j) (np_min (map (\<lambda>r. r ! j) (tl ?m1)))"
      by (simp add: sub_columns_cell)
    with cmin [of j] h show "fst (reduce_matrix m) ! i ! j = NaN"
      by (simp add: reduce_matrix_def Let_def)
  qed
qed

lemma infinite_column_reduced:
  assumes rect: "rectangular m"
    and c: "1 \<le> c" "c < length (hd m)"
    and inf: "\<forall>i. 1 \<le> i \<and> i < length m \<longrightarrow> m ! i ! c = PInf"
  shows "inf_or_nan (snd (reduce_matrix m))"
    and "\<forall>i. 1 \<le> i \<and> i < length m \<longrightarrow> fst (reduce_matrix m) ! i ! c = NaN"
proof -
  let ?m1 = "sub_rows m"
  from rect have ne: "m \<noteq> []" and w: "1 < length (hd m)" by (auto simp: rectangular_def)
  have l1: "length ?m1 = length m" using ne by (rule length_sub_rows)
  have cell1: "inf_or_nan (?m1 ! i ! c)" if "1 \<le> i" "i < length m" for i
  proof -
    have "length (m ! i) = length (hd m)" using rect that by (simp add: rectangular_row)
    with that c have "?m1 ! i ! c = fsub (m ! i ! c) (np_min (tl (m ! i)))"
      by (simp add: sub_rows_cell)
    with inf that show ?thesis by (simp add: fsub_PInf_left)
  qed
  have "\<forall>x \<in> set (map (\<lambda>r. r ! c) (tl ?m1)). inf_or_nan x"
  proof
    fix x assume "x \<in> set (map (\<lambda>r. r ! c) (tl ?m1))"
    from column_cells [OF this] l1 cell1 show "inf_or_nan x" by auto
  qed
  then have cmin: "inf_or_nan (np_min (map (\<lambda>r. r ! c) (tl ?m1)))" by (rule np_min_inf_or_nan)
  have "c \<in> set [1..<length (hd ?m1)]" using c by (simp add: hd_sub_rows)
  then have "np_min (map (\<lambda>r. r ! c) (tl ?m1)) \<in> set (column_minimums ?m1)"
    unfolding column_minimums_def by auto
  with cmin have "\<exists>x \<in> set (column_minimums ?m1). inf_or_nan x" by blast
  then have "inf_or_nan (py_sum (column_minimums ?m1))" by (rule py_sum_has_inf_or_nan)
  then show "inf_or_nan (snd (reduce_matrix m))"
    by (simp add: reduce_matrix_def Let_def fadd_inf_or_nan_right)
  show "\<forall>i. 1 \<le> i \<and> i < length m \<longrightarrow> fst (reduce_matrix m) ! i ! c = NaN"
  proof (intro allI impI)
    fix i assume h: "1 \<le> i \<and> i < length m"
    then have "length (?m1 ! i) = length (hd m)" using rect by (simp add: rectangular_sub_rows_row)
    with h l1 c have "sub_columns ?m1 ! i ! c = fsub (?m1 ! i ! c) (np_min (map (\<lambda>r. r ! c) (tl ?m1)))"
      by (simp add: sub_columns_cell)
    moreover have "fsub (?m1 ! i ! c) (np_min (map (\<lambda>r. r ! c) (tl ?m1))) = NaN"
      using cell1 h cmin by (intro fsub_inf_or_nan) simp_all
    ultimately show "fst (reduce_matrix m) ! i ! c = NaN"
      by (simp add: reduce_matrix_def Let_def)
  qed
qed


lemma bound_rectangular:
  assumes "rectangular (distance_matrix p)"
  shows "bound p = Inr (p\<lparr>distance_matrix := fst (reduce_matrix (distance_matrix p)),
                         lower_bound := fadd (lower_bound p) (snd (reduce_matrix (distance_matrix p)))\<rparr>)"
  using assms by (simp add: bound_def bound_matrix_def rectangular_def split: prod.splits)

definition infinite_row_matrix :: matrix where
  "infinite_row_matrix =
     [[PInf, Fin 1, Fin 2, Fin 3],
      [Fin 1, PInf, Fin 0, Fin 0],
      [Fin 2, PInf, PInf, PInf],
      [Fin 3, Fin 0, Fin 0, PInf]]"

definition infinite_column_matrix :: matrix where
  "infinite_column_matrix =
     [[PInf, Fin 1, Fin 2, Fin 3],
      [Fin 1, PInf, PInf, Fin 0],
      [Fin 2, Fin 0, PInf, Fin 0],
      [Fin 3, Fin 0, PInf, PInf]]"

text \<open>
  Claim C4, as stated (an entirely infinite row or column adds 0 to the bound, and no NaN
  appears): the row of node 2 is entirely infinite; \<open>bound\<close> raises nothing, the bound
  of the node becomes NaN and so does every data cell.
\<close>

theorem C4_infinite_row_makes_nan:
  "map_sum id (\<lambda>p. (lower_bound p, distance_matrix p))
     (bound (node_of infinite_row_matrix (Fin 0) ([], [])))
   = Inr (NaN,
          [[PInf, Fin 1, Fin 2, Fin 3],
           [Fin 1, NaN, NaN, NaN],
           [Fin 2, NaN, NaN, NaN],
           [Fin 3, NaN, NaN, NaN]])"
  by code_simp

text \<open>
  Claim C4, amended: on a rectangular matrix with a data region, \<open>bound\<close> raises
  nothing. A data row that is entirely infinite has the minimum infinity: the bound of
  the node and every data cell become NaN. A data column that is entirely infinite makes
  the bound infinite or NaN and every cell of the column NaN.
\<close>

theorem C4_infinite_row_or_column:
  assumes "rectangular (distance_matrix p)"
  shows "(\<forall>a. 1 \<le> a \<and> a < length (distance_matrix p)
             \<and> (\<forall>j. 1 \<le> j \<and> j < length (hd (distance_matrix p)) \<longrightarrow> distance_matrix p ! a ! j = PInf)
           \<longrightarrow> (\<exists>p'. bound p = Inr p' \<and> lower_bound p' = NaN
                  \<and> (\<forall>i j. 1 \<le> i \<and> i < length (distance_matrix p)
                            \<and> 1 \<le> j \<and> j < length (hd (distance_matrix p))
                          \<longrightarrow> distance_matrix p' ! i ! j = NaN)))
       \<and> (\<forall>c. 1 \<le> c \<and> c < length (hd (distance_matrix p))
             \<and> (\<forall>i. 1 \<le> i \<and> i < length (distance_matrix p) \<longrightarrow> distance_matrix p ! i ! c = PInf)
           \<longrightarrow> (\<exists>p'. bound p = Inr p' \<and> inf_or_nan (lower_bound p')
                  \<and> (\<forall>i. 1 \<le> i \<and> i < length (distance_matrix p)
                          \<longrightarrow> distance_matrix p' ! i ! c = NaN)))"
proof (intro conjI allI impI)
  fix a
  assume h: "1 \<le> a \<and> a < length (distance_matrix p)
             \<and> (\<forall>j. 1 \<le> j \<and> j < length (hd (distance_matrix p)) \<longrightarrow> distance_matrix p ! a ! j = PInf)"
  then have a: "1 \<le> a" "a < length (distance_matrix p)"
    and inf: "\<forall>j. 1 \<le> j \<and> j < length (hd (distance_matrix p)) \<longrightarrow> distance_matrix p ! a ! j = PInf"
    by simp_all
  note r = infinite_row_reduced [OF assms a inf]
  let ?p' = "p\<lparr>distance_matrix := fst (reduce_matrix (distance_matrix p)),
               lower_bound := fadd (lower_bound p) (snd (reduce_matrix (distance_matrix p)))\<rparr>"
  have "bound p = Inr ?p'" using assms by (rule bound_rectangular)
  moreover have "lower_bound ?p' = NaN" using r(1) by simp
  moreover have "\<forall>i j. 1 \<le> i \<and> i < length (distance_matrix p)
                            \<and> 1 \<le> j \<and> j < length (hd (distance_matrix p))
                          \<longrightarrow> distance_matrix ?p' ! i ! j = NaN"
    using r(2) by simp
  ultimately show "\<exists>p'. bound p = Inr p' \<and> lower_bound p' = NaN
                  \<and> (\<forall>i j. 1 \<le> i \<and> i < length (distance_matrix p)
                            \<and> 1 \<le> j \<and> j < length (hd (distance_matrix p))
                          \<longrightarrow> distance_matrix p' ! i ! j = NaN)"
    by blast
next
  fix c
  assume h: "1 \<le> c \<and> c < length (hd (distance_matrix p))
             \<and> (\<forall>i. 1 \<le> i \<and> i < length (distance_matrix p) \<longrightarrow> distance_matrix p ! i ! c = PInf)"
  then have c: "1 \<le> c" "c < length (hd (distance_matrix p))"
    and inf: "\<forall>i. 1 \<le> i \<and> i < length (distance_matrix p) \<longrightarrow> distance_matrix p ! i ! c = PInf"
    by simp_all
  note r = infinite_column_reduced [OF assms c inf]
  let ?p' = "p\<lparr>distance_matrix := fst (reduce_matrix (distance_matrix p)),
               lower_bound := fadd (lower_bound p) (snd (reduce_matrix (distance_matrix p)))\<rparr>"
  have "bound p = Inr ?p'" using assms by (rule bound_rectangular)
  moreover have "inf_or_nan (lower_bound ?p')" using r(1) by (simp add: fadd_inf_or_nan_right)
  moreover have "\<forall>i. 1 \<le> i \<and> i < length (distance_matrix p) \<longrightarrow> distance_matrix ?p' ! i ! c = NaN"
    using r(2) by simp
  ultimately show "\<exists>p'. bound p = Inr p' \<and> inf_or_nan (lower_bound p')
                  \<and> (\<forall>i. 1 \<le> i \<and> i < length (distance_matrix p)
                          \<longrightarrow> distance_matrix p' ! i ! c = NaN)"
    by blast
qed

theorem C4_infinite_row_or_column_witness:
  "rectangular (distance_matrix (node_of infinite_row_matrix (Fin 0) ([], [])))
   \<and> (\<exists>p'. bound (node_of infinite_row_matrix (Fin 0) ([], [])) = Inr p'
          \<and> lower_bound p' = NaN \<and> distance_matrix p' ! 1 ! 1 = NaN)
   \<and> (\<exists>p'. bound (node_of infinite_column_matrix (Fin 0) ([], [])) = Inr p'
          \<and> inf_or_nan (lower_bound p') \<and> distance_matrix p' ! 1 ! 2 = NaN)"
proof -
  let ?p = "node_of infinite_row_matrix (Fin 0) ([], [])"
  let ?q = "node_of infinite_column_matrix (Fin 0) ([], [])"
  have rp: "rectangular (distance_matrix ?p)" by code_simp
  have rq: "rectangular (distance_matrix ?q)" by code_simp
  have lp: "length (distance_matrix ?p) = 4" "length (hd (distance_matrix ?p)) = 4"
    by (simp_all add: node_of_def infinite_row_matrix_def)
  have lq: "length (distance_matrix ?q) = 4" "length (hd (distance_matrix ?q)) = 4"
    by (simp_all add: node_of_def infinite_column_matrix_def)
  have row: "\<forall>j. 1 \<le> j \<and> j < length (hd (distance_matrix ?p)) \<longrightarrow> distance_matrix ?p ! 2 ! j = PInf"
  proof (intro allI impI)
    fix j assume "1 \<le> j \<and> j < length (hd (distance_matrix ?p))"
    with lp have "j = 1 \<or> j = 2 \<or> j = 3" by auto
    then show "distance_matrix ?p ! 2 ! j = PInf"
      by (auto simp: node_of_def infinite_row_matrix_def)
  qed
  have col: "\<forall>i. 1 \<le> i \<and> i < length (distance_matrix ?q) \<longrightarrow> distance_matrix ?q ! i ! 2 = PInf"
  proof (intro allI impI)
    fix i assume "1 \<le> i \<and> i < length (distance_matrix ?q)"
    with lq have "i = 1 \<or> i = 2 \<or> i = 3" by auto
    then show "distance_matrix ?q ! i ! 2 = PInf"
      by (auto simp: node_of_def infinite_column_matrix_def)
  qed
  from C4_infinite_row_or_column [OF rp]
  have "(1::nat) \<le> 2 \<and> 2 < length (distance_matrix ?p)
         \<and> (\<forall>j. 1 \<le> j \<and> j < length (hd (distance_matrix ?p)) \<longrightarrow> distance_matrix ?p ! 2 ! j = PInf)
        \<longrightarrow> (\<exists>p'. bound ?p = Inr p' \<and> lower_bound p' = NaN
                \<and> (\<forall>i j. 1 \<le> i \<and> i < length (distance_matrix ?p)
                          \<and> 1 \<le> j \<and> j < length (hd (distance_matrix ?p))
                        \<longrightarrow> distance_matrix p' ! i ! j = NaN))"
    by blast
  with row lp
  have "\<exists>p'. bound ?p = Inr p' \<and> lower_bound p' = NaN
          \<and> (\<forall>i j. 1 \<le> i \<and> i < 4 \<and> 1 \<le> j \<and> j < 4 \<longrightarrow> distance_matrix p' ! i ! j = NaN)"
    by simp
  then have a: "\<exists>p'. bound ?p = Inr p' \<and> lower_bound p' = NaN \<and> distance_matrix p' ! 1 ! 1 = NaN"
    by fastforce
  from C4_infinite_row_or_column [OF rq]
  have "(1::nat) \<le> 2 \<and> 2 < length (hd (distance_matrix ?q))
         \<and> (\<forall>i. 1 \<le> i \<and> i < length (distance_matrix ?q) \<longrightarrow> distance_matrix ?q ! i ! 2 = PInf)
        \<longrightarrow> (\<exists>p'. bound ?q = Inr p' \<and> inf_or_nan (lower_bound p')
                \<and> (\<forall>i. 1 \<le> i \<and> i < length (distance_matrix ?q)
                        \<longrightarrow> distance_matrix p' ! i ! 2 = NaN))"
    by blast
  with col lq
  have "\<exists>p'. bound ?q = Inr p' \<and> inf_or_nan (lower_bound p')
          \<and> (\<forall>i. 1 \<le> i \<and> i < 4 \<longrightarrow> distance_matrix p' ! i ! 2 = NaN)"
    by simp
  then have b: "\<exists>p'. bound ?q = Inr p' \<and> inf_or_nan (lower_bound p') \<and> distance_matrix p' ! 1 ! 2 = NaN"
    by fastforce
  from rp a b show ?thesis by blast
qed

section \<open>The cells of the augmented matrix\<close>

text \<open>A loop of \<open>convert\<close> whose reads succeed is a sequence of writes.\<close>

definition write_all :: "(nat \<times> nat \<Rightarrow> fval) \<Rightarrow> (nat \<times> nat) list \<Rightarrow> matrix \<Rightarrow> matrix" where
  "write_all w cells c = foldl (\<lambda>c ij. set_cell c (fst ij) (snd ij) (w ij)) c cells"

lemma fold_err_put:
  "(\<And>ij. ij \<in> set cells \<Longrightarrow> v ij = Inr (w ij)) \<Longrightarrow> fold_err (put v) cells c = Inr (write_all w cells c)"
  by (induction cells arbitrary: c) (simp_all add: write_all_def put_def)

lemma length_set_cell [simp]: "length (set_cell c i j x) = length c"
  by (simp add: set_cell_def)

lemma length_set_cell_row [simp]: "length (set_cell c i j x ! a) = length (c ! a)"
  by (cases "i < length c"; cases "a = i") (simp_all add: set_cell_def list_update_beyond)

lemma set_cell_cell:
  "a < length c \<Longrightarrow> b < length (c ! a) \<Longrightarrow>
     set_cell c i j x ! a ! b = (if (a, b) = (i, j) then x else c ! a ! b)"
  by (cases "a = i"; cases "b = j") (simp_all add: set_cell_def)

lemma length_write_all [simp]: "length (write_all w cells c) = length c"
  by (induction cells arbitrary: c) (simp_all add: write_all_def)

lemma length_write_all_row [simp]: "length (write_all w cells c ! a) = length (c ! a)"
  by (induction cells arbitrary: c) (simp_all add: write_all_def)

lemma write_all_cell:
  "a < length c \<Longrightarrow> b < length (c ! a) \<Longrightarrow>
     write_all w cells c ! a ! b = (if (a, b) \<in> set cells then w (a, b) else c ! a ! b)"
proof (induction cells arbitrary: c)
  case Nil
  then show ?case by (simp add: write_all_def)
next
  case (Cons ij cells)
  obtain i j where ij: "ij = (i, j)" by (cases ij)
  have "write_all w (ij # cells) c = write_all w cells (set_cell c i j (w ij))"
    by (simp add: write_all_def ij)
  moreover have "write_all w cells (set_cell c i j (w ij)) ! a ! b
      = (if (a, b) \<in> set cells then w (a, b) else set_cell c i j (w ij) ! a ! b)"
    using Cons.prems by (intro Cons.IH) simp_all
  ultimately show ?case using Cons.prems by (auto simp: set_cell_cell ij)
qed


text \<open>The matrix that \<open>convert\<close> builds from a square matrix, as five layers of writes.\<close>

definition converted :: "matrix \<Rightarrow> nat \<Rightarrow> matrix" where
  "converted D k =
     (let n = length D + k in
      write_all (\<lambda>ij. if fst ij = snd ij then PInf else D ! (fst ij - k) ! (snd ij - k))
        (List.product [k + 1..<n] [k + 1..<n])
        (write_all (\<lambda>ij. D ! (fst ij - k) ! 0)
           (map (\<lambda>ji. (snd ji, fst ji)) (List.product [1..<k + 1] [k + 1..<n]))
           (write_all (\<lambda>ij. D ! 0 ! (snd ij - k))
              (List.product [1..<k + 1] [k + 1..<n])
              (write_all (\<lambda>ij. label_of k (fst ij)) (map (\<lambda>i. (i, 0)) [1..<n])
                 (write_all (\<lambda>ij. label_of k (snd ij)) (map (\<lambda>i. (0, i)) [1..<n])
                    (replicate n (replicate n PInf)))))))"

lemma convert_square:
  assumes ne: "D \<noteq> []" and sq: "square D"
  shows "convert D k = Inr (converted D k)"
proof -
  let ?n = "length D + k"
  have len: "length (D ! a) = length D" if "a < length D" for a
    using sq that by (simp add: square_def)
  have pos: "0 < length D" using ne by simp
  have e1: "fold_err (put (\<lambda>ij. Inr (label_of k (snd ij)))) cells c
            = Inr (write_all (\<lambda>ij. label_of k (snd ij)) cells c)" for cells c
    by (rule fold_err_put) simp
  have e2: "fold_err (put (\<lambda>ij. Inr (label_of k (fst ij)))) cells c
            = Inr (write_all (\<lambda>ij. label_of k (fst ij)) cells c)" for cells c
    by (rule fold_err_put) simp
  have e3: "fold_err (put (\<lambda>ij. cell D 0 (snd ij - k))) (List.product [1..<k + 1] [k + 1..<?n]) c
            = Inr (write_all (\<lambda>ij. D ! 0 ! (snd ij - k)) (List.product [1..<k + 1] [k + 1..<?n]) c)" for c
  proof (rule fold_err_put)
    fix ij assume "ij \<in> set (List.product [1..<k + 1] [k + 1..<?n])"
    then have "snd ij - k < length D" by auto
    with pos len [of 0] show "cell D 0 (snd ij - k) = Inr (D ! 0 ! (snd ij - k))"
      by (simp add: cell_def)
  qed
  have e4: "fold_err (put (\<lambda>ij. cell D (fst ij - k) 0))
              (map (\<lambda>ji. (snd ji, fst ji)) (List.product [1..<k + 1] [k + 1..<?n])) c
            = Inr (write_all (\<lambda>ij. D ! (fst ij - k) ! 0)
                     (map (\<lambda>ji. (snd ji, fst ji)) (List.product [1..<k + 1] [k + 1..<?n])) c)" for c
  proof (rule fold_err_put)
    fix ij assume "ij \<in> set (map (\<lambda>ji. (snd ji, fst ji)) (List.product [1..<k + 1] [k + 1..<?n]))"
    then have "fst ij - k < length D" by auto
    with pos len [of "fst ij - k"] show "cell D (fst ij - k) 0 = Inr (D ! (fst ij - k) ! 0)"
      by (simp add: cell_def)
  qed
  have e5: "fold_err (put (\<lambda>ij. case cell D (fst ij - k) (snd ij - k) of
                               Inl e \<Rightarrow> Inl e
                             | Inr x \<Rightarrow> Inr (if fst ij = snd ij then PInf else x)))
              (List.product [k + 1..<?n] [k + 1..<?n]) c
            = Inr (write_all (\<lambda>ij. if fst ij = snd ij then PInf else D ! (fst ij - k) ! (snd ij - k))
                     (List.product [k + 1..<?n] [k + 1..<?n]) c)" for c
  proof (rule fold_err_put)
    fix ij assume "ij \<in> set (List.product [k + 1..<?n] [k + 1..<?n])"
    then have "fst ij - k < length D" and "snd ij - k < length D" by auto
    with len [of "fst ij - k"]
    show "(case cell D (fst ij - k) (snd ij - k) of
             Inl e \<Rightarrow> Inl e
           | Inr x \<Rightarrow> Inr (if fst ij = snd ij then PInf else x))
          = Inr (if fst ij = snd ij then PInf else D ! (fst ij - k) ! (snd ij - k))"
      by (simp add: cell_def)
  qed
  have "convert D k = (if D = [] then Inl IndexError else Inr (converted D k))"
    unfolding convert_def converted_def Let_def ebind_def e1 e2 e3 e4 e5 sum.case ..
  with ne show ?thesis by simp
qed

lemma converted_cell:
  assumes a: "a < length D + k" and b: "b < length D + k"
  shows "converted D k ! a ! b =
     (if k < a \<and> k < b then (if a = b then PInf else D ! (a - k) ! (b - k))
      else if k < a \<and> 1 \<le> b then D ! (a - k) ! 0
      else if 1 \<le> a \<and> k < b then D ! 0 ! (b - k)
      else if 1 \<le> a \<and> b = 0 then label_of k a
      else if a = 0 \<and> 1 \<le> b then label_of k b
      else PInf)"
proof -
  let ?n = "length D + k"
  have m5: "(a, b) \<in> set (List.product [k + 1..<?n] [k + 1..<?n]) \<longleftrightarrow> k < a \<and> k < b"
    using a b by auto
  have m4: "(a, b) \<in> set (map (\<lambda>ji. (snd ji, fst ji)) (List.product [1..<k + 1] [k + 1..<?n]))
            \<longleftrightarrow> k < a \<and> 1 \<le> b \<and> b \<le> k"
    using a b by (auto simp: image_iff)
  have m3: "(a, b) \<in> set (List.product [1..<k + 1] [k + 1..<?n]) \<longleftrightarrow> 1 \<le> a \<and> a \<le> k \<and> k < b"
    using a b by auto
  have m2: "(a, b) \<in> set (map (\<lambda>i. (i, 0)) [1..<?n]) \<longleftrightarrow> 1 \<le> a \<and> b = 0"
    using a b by auto
  have m1: "(a, b) \<in> set (map (\<lambda>i. (0, i)) [1..<?n]) \<longleftrightarrow> a = 0 \<and> 1 \<le> b"
    using a b by auto
  have "converted D k ! a ! b =
     (if k < a \<and> k < b then (if a = b then PInf else D ! (a - k) ! (b - k))
      else if k < a \<and> 1 \<le> b \<and> b \<le> k then D ! (a - k) ! 0
      else if 1 \<le> a \<and> a \<le> k \<and> k < b then D ! 0 ! (b - k)
      else if 1 \<le> a \<and> b = 0 then label_of k a
      else if a = 0 \<and> 1 \<le> b then label_of k b
      else PInf)"
    unfolding converted_def Let_def
    using a b by (simp only: write_all_cell length_write_all length_write_all_row
        length_replicate nth_replicate m1 m2 m3 m4 m5 fst_conv snd_conv)
  then show ?thesis by auto
qed

lemma length_converted: "length (converted D k) = length D + k"
  by (simp add: converted_def Let_def)

lemma length_converted_row: "a < length D + k \<Longrightarrow> length (converted D k ! a) = length D + k"
  by (simp add: converted_def Let_def)


definition raw_matrix :: matrix where
  "raw_matrix =
     [[Fin 0, Fin 5, Fin 7],
      [Fin 4, Fin 0, Fin 6],
      [Fin 8, Fin 9, Fin 0]]"

text \<open>
  Claim C10 (\<open>convert\<close> is a pure function of the raw matrix and the fleet size; depot
  copy against depot copy is infinite, depot copies take the depot row and column of the
  raw matrix, customers take the raw entries, the diagonal is infinite). \<open>convert\<close> is a
  function of its two arguments. For a square raw matrix with at least the depot row it
  returns a square matrix of side \<open>len(matrix) + fleet_size\<close> whose data cells are as the
  claim says; rows and columns 1 to \<open>fleet_size\<close> are the depot copies.
\<close>

theorem C10_convert_cells:
  assumes "D \<noteq> []" and "square D"
  shows "\<exists>M. convert D k = Inr M
           \<and> length M = length D + k
           \<and> (\<forall>a. a < length D + k \<longrightarrow> length (M ! a) = length D + k)
           \<and> (\<forall>a b. 1 \<le> a \<and> a < length D + k \<and> 1 \<le> b \<and> b < length D + k \<longrightarrow>
                  M ! a ! b =
                    (if a \<le> k \<and> b \<le> k then PInf
                     else if a \<le> k then D ! 0 ! (b - k)
                     else if b \<le> k then D ! (a - k) ! 0
                     else if a = b then PInf
                     else D ! (a - k) ! (b - k)))
           \<and> (\<forall>a. a < length D + k \<longrightarrow> M ! a ! a = PInf)"
proof (intro exI conjI allI impI)
  show "convert D k = Inr (converted D k)" using assms by (rule convert_square)
  show "length (converted D k) = length D + k" by (rule length_converted)
  show "length (converted D k ! a) = length D + k" if "a < length D + k" for a
    using that by (rule length_converted_row)
  show "converted D k ! a ! b =
          (if a \<le> k \<and> b \<le> k then PInf
           else if a \<le> k then D ! 0 ! (b - k)
           else if b \<le> k then D ! (a - k) ! 0
           else if a = b then PInf
           else D ! (a - k) ! (b - k))"
    if "1 \<le> a \<and> a < length D + k \<and> 1 \<le> b \<and> b < length D + k" for a b
    using that by (auto simp: converted_cell)
  show "converted D k ! a ! a = PInf" if "a < length D + k" for a
    using that by (auto simp: converted_cell)
qed

theorem C10_convert_cells_witness:
  "raw_matrix \<noteq> [] \<and> square raw_matrix
   \<and> (\<exists>M. convert raw_matrix 2 = Inr M \<and> length M = 5
          \<and> M ! 1 ! 2 = PInf \<and> M ! 1 ! 3 = Fin 5 \<and> M ! 3 ! 1 = Fin 4
          \<and> M ! 3 ! 4 = Fin 6 \<and> M ! 3 ! 3 = PInf)"
proof -
  have ne: "raw_matrix \<noteq> []" by (simp add: raw_matrix_def)
  have sq: "square raw_matrix" by (simp add: square_def raw_matrix_def)
  have l: "length raw_matrix = 3" by (simp add: raw_matrix_def)
  from C10_convert_cells [OF ne sq, of 2] obtain M where
    c: "convert raw_matrix 2 = Inr M" and len: "length M = length raw_matrix + 2"
    and cells: "\<forall>a b. 1 \<le> a \<and> a < length raw_matrix + 2 \<and> 1 \<le> b \<and> b < length raw_matrix + 2 \<longrightarrow>
                  M ! a ! b =
                    (if a \<le> 2 \<and> b \<le> 2 then PInf
                     else if a \<le> 2 then raw_matrix ! 0 ! (b - 2)
                     else if b \<le> 2 then raw_matrix ! (a - 2) ! 0
                     else if a = b then PInf
                     else raw_matrix ! (a - 2) ! (b - 2))"
    by blast
  from cells l have "M ! 1 ! 2 = PInf" by simp
  moreover from cells l have "M ! 1 ! 3 = raw_matrix ! 0 ! 1" by simp
  moreover from cells l have "M ! 3 ! 1 = raw_matrix ! 1 ! 0" by simp
  moreover from cells l have "M ! 3 ! 4 = raw_matrix ! 1 ! 2" by simp
  moreover from cells l have "M ! 3 ! 3 = PInf" by simp
  ultimately show ?thesis using ne sq c len l by (auto simp: raw_matrix_def)
qed

section \<open>The bound of a child\<close>

text \<open>The values of a reduced matrix: a number that is not negative, or infinity.\<close>

fun nonneg :: "fval \<Rightarrow> bool" where
  "nonneg (Fin q) = (0 \<le> q)"
| "nonneg PInf = True"
| "nonneg NInf = False"
| "nonneg NaN = False"

definition nonneg_or_nan :: "fval \<Rightarrow> bool" where
  "nonneg_or_nan x = (nonneg x \<or> x = NaN)"













lemma fadd_not_NInf:
  "lb \<noteq> NInf \<Longrightarrow> nonneg_or_nan c \<Longrightarrow> fadd lb c \<noteq> NInf"
  by (cases lb; cases c) (auto simp: nonneg_or_nan_def)










section \<open>The incumbent\<close>


























section \<open>The bound along a branching step\<close>






























end
